theory Spec2Isabelle
  imports Main
begin

section \<open>Python values, errors and string helpers\<close>

text \<open>
  The exceptions that the modelled functions of \<^verbatim>\<open>heliopy/data/mms.py\<close> can raise.
  A raised exception is the left injection of the result.
\<close>

datatype error =
    ValueError
  | IndexError
  | TypeError
  | NameError
  | UnboundLocalError
  | AttributeError

text \<open>Sequencing of two fallible steps: the first exception ends the computation.\<close>

definition and_then :: "error + 'a \<Rightarrow> ('a \<Rightarrow> error + 'b) \<Rightarrow> error + 'b" where
  "and_then m f = (case m of Inl e \<Rightarrow> Inl e | Inr x \<Rightarrow> f x)"

text \<open>
  An argument of the name and path constructors: \<^verbatim>\<open>None\<close>, one \<^verbatim>\<open>str\<close>, or a
  list of \<^verbatim>\<open>str\<close>.
\<close>

datatype arg = ANone | AStr string | AList "string list"

text \<open>\<^verbatim>\<open>if isinstance(x, str): x = [x]\<close>\<close>

fun as_list :: "arg \<Rightarrow> arg" where
  "as_list (AStr s) = AList [s]"
| "as_list a = a"

text \<open>
  \<^verbatim>\<open>for s in x\<close>: \<^verbatim>\<open>None\<close> is not iterable, a \<^verbatim>\<open>str\<close> yields its characters.
\<close>

fun iterate :: "arg \<Rightarrow> error + string list" where
  "iterate ANone = Inl TypeError"
| "iterate (AStr s) = Inr (map (\<lambda>c. [c]) s)"
| "iterate (AList xs) = Inr xs"

text \<open>
  One \<^verbatim>\<open>for\<close> clause of a list comprehension. The clauses to its right are evaluated
  once per element, so an inner iterable is only touched when the outer one is not empty.
\<close>

fun for_each :: "'a list \<Rightarrow> ('a \<Rightarrow> error + 'b list) \<Rightarrow> error + 'b list" where
  "for_each [] f = Inr []"
| "for_each (x # xs) f =
     and_then (f x) (\<lambda>ys. and_then (for_each xs f) (\<lambda>zs. Inr (ys @ zs)))"

definition for_in :: "arg \<Rightarrow> (string \<Rightarrow> error + 'b list) \<Rightarrow> error + 'b list" where
  "for_in a f = and_then (iterate a) (\<lambda>xs. for_each xs f)"

text \<open>\<^verbatim>\<open>sep.join(xs)\<close>\<close>

fun join :: "string \<Rightarrow> string list \<Rightarrow> string" where
  "join sep [] = []"
| "join sep [x] = x"
| "join sep (x # y # ys) = x @ sep @ join sep (y # ys)"

text \<open>\<^verbatim>\<open>s.split(c)\<close> for a one-character separator; the result is never empty.\<close>

fun split_on :: "char \<Rightarrow> string \<Rightarrow> string list" where
  "split_on c [] = [[]]"
| "split_on c (x # xs) =
     (if x = c then [] # split_on c xs
      else (case split_on c xs of [] \<Rightarrow> [[x]] | y # ys \<Rightarrow> (x # y) # ys))"

text \<open>
  Index normalisation of slices and of \<^verbatim>\<open>list.insert\<close>: a negative index counts from
  the end, and the result is clamped to \<open>0..n\<close>.
\<close>

definition clamp_index :: "int \<Rightarrow> nat \<Rightarrow> nat" where
  "clamp_index i n = (if i < 0 then nat (max 0 (i + int n)) else min (nat i) n)"

text \<open>\<^verbatim>\<open>xs[a:b]\<close>\<close>

definition slice :: "int \<Rightarrow> int \<Rightarrow> 'a list \<Rightarrow> 'a list" where
  "slice a b xs =
     (let lo = clamp_index a (length xs); hi = clamp_index b (length xs)
      in take (hi - lo) (drop lo xs))"

text \<open>\<^verbatim>\<open>xs.insert(i, x)\<close>\<close>

definition list_insert :: "int \<Rightarrow> 'a \<Rightarrow> 'a list \<Rightarrow> 'a list" where
  "list_insert i x xs =
     (let j = clamp_index i (length xs) in take j xs @ [x] @ drop j xs)"

text \<open>\<^verbatim>\<open>xs[i]\<close>, which raises \<^verbatim>\<open>IndexError\<close> out of range.\<close>

definition index :: "'a list \<Rightarrow> int \<Rightarrow> error + 'a" where
  "index xs i =
     (let j = (if i < 0 then i + int (length xs) else i)
      in if 0 \<le> j \<and> j < int (length xs) then Inr (xs ! nat j) else Inl IndexError)"

text \<open>\<^verbatim>\<open>os.path.basename\<close> (POSIX): what follows the last \<^verbatim>\<open>/\<close>.\<close>

definition basename :: "string \<Rightarrow> string" where
  "basename p = rev (takeWhile (\<lambda>c. c \<noteq> CHR ''/'') (rev p))"

text \<open>
  \<^verbatim>\<open>os.path.join(a, *p)\<close> (POSIX): a component that starts with \<^verbatim>\<open>/\<close> restarts the
  path; otherwise it is appended, after a \<^verbatim>\<open>/\<close> unless the path so far is empty or
  already ends with one.
\<close>

fun path_join_loop :: "string \<Rightarrow> string list \<Rightarrow> string" where
  "path_join_loop path [] = path"
| "path_join_loop path (b # bs) =
     path_join_loop
       (if take 1 b = ''/'' then b
        else if path = [] \<or> last path = CHR ''/'' then path @ b
        else path @ ''/'' @ b) bs"

definition path_join :: "string \<Rightarrow> string list \<Rightarrow> string" where
  "path_join a p = path_join_loop a p"

section \<open>File names\<close>

text \<open>
  \<^verbatim>\<open>construct_filename(sc, instr, mode, level, tstart, version, optdesc)\<close>. The
  test \<^verbatim>\<open>type(sc) == 'tuple'\<close> compares a type with a string and is never true, so
  \<^verbatim>\<open>sc_ids = sc\<close>.
\<close>

definition construct_filename ::
  "arg \<Rightarrow> arg \<Rightarrow> arg \<Rightarrow> arg \<Rightarrow> arg \<Rightarrow> arg \<Rightarrow> arg \<Rightarrow> error + string list" where
  "construct_filename sc instr mode level tstart version optdesc =
     (let sc = as_list sc; instr = as_list instr; mode = as_list mode;
          level = as_list level; tstart = as_list tstart; version = as_list version;
          optdesc = as_list optdesc;
          sc_ids = sc
      in if optdesc = ANone then
           for_in sc_ids (\<lambda>s. for_in instr (\<lambda>i. for_in mode (\<lambda>m.
           for_in level (\<lambda>l. for_in tstart (\<lambda>t. for_in version (\<lambda>v.
             Inr [join ''_'' [s, i, m, l, t, ''v'' @ v @ ''.cdf'']]))))))
         else
           for_in sc_ids (\<lambda>s. for_in instr (\<lambda>i. for_in mode (\<lambda>m.
           for_in level (\<lambda>l. for_in optdesc (\<lambda>ou. for_in tstart (\<lambda>t.
           for_in version (\<lambda>v.
             Inr [join ''_'' [s, i, m, l, ou, t, ''v'' @ v @ ''.cdf'']]))))))))"

text \<open>
  The body of the loop of \<^verbatim>\<open>parse_file_names\<close>: split the base name at the
  underscores, put an empty descriptor in front of the last two parts of a six-part name, and
  cut the leading \<^verbatim>\<open>v\<close> and the four-character extension from the last part.
\<close>

definition parse_file_name :: "string \<Rightarrow> string list" where
  "parse_file_name file =
     (let parts = split_on CHR ''_'' (basename file);
          parts = (if length parts = 6 then list_insert (- 2) [] parts else parts)
      in butlast parts @ [slice 1 (- 4) (last parts)])"

text \<open>
  \<^verbatim>\<open>parse_file_names(fnames)\<close> for a list of names (a single \<^verbatim>\<open>str\<close> is first
  wrapped into a list of one name). Each tuple is a list of strings here.
\<close>

definition parse_file_names :: "string list \<Rightarrow> string list list" where
  "parse_file_names fnames = map parse_file_name fnames"

text \<open>
  A segment that can stand in a file name: it holds neither the delimiter \<^verbatim>\<open>_\<close> nor
  the path separator \<^verbatim>\<open>/\<close>.
\<close>

definition valid_segment :: "string \<Rightarrow> bool" where
  "valid_segment s \<longleftrightarrow> CHR ''_'' \<notin> set s \<and> CHR ''/'' \<notin> set s"

fun descriptor_arg :: "string option \<Rightarrow> arg" where
  "descriptor_arg None = ANone"
| "descriptor_arg (Some d) = AStr d"

fun descriptor_field :: "string option \<Rightarrow> string" where
  "descriptor_field None = []"
| "descriptor_field (Some d) = d"


section \<open>Dates and times\<close>

text \<open>
  Modelled from the spec: \<^verbatim>\<open>datetime\<close> of the Python standard library, which is not
  part of the source. A \<^verbatim>\<open>datetime\<close> is the number of microseconds since
  0001-01-01T00:00:00 in the proleptic Gregorian calendar; comparison is the order of the
  integers, \<^verbatim>\<open>timedelta(seconds=1)\<close> is \<open>one_second\<close>, and \<^verbatim>\<open>.date()\<close> is the
  number of whole days.
\<close>

type_synonym datetime = int

definition one_second :: int where
  "one_second = 1000000"

definition date :: "datetime \<Rightarrow> int" where
  "date t = t div (86400 * one_second)"

definition is_leap :: "int \<Rightarrow> bool" where
  "is_leap y \<longleftrightarrow> y mod 4 = 0 \<and> (y mod 100 \<noteq> 0 \<or> y mod 400 = 0)"

definition days_in_month :: "int \<Rightarrow> int \<Rightarrow> int" where
  "days_in_month y m =
     (if m = 2 then (if is_leap y then 29 else 28)
      else if m = 4 \<or> m = 6 \<or> m = 9 \<or> m = 11 then 30 else 31)"

definition days_before_year :: "int \<Rightarrow> int" where
  "days_before_year y =
     (y - 1) * 365 + (y - 1) div 4 - (y - 1) div 100 + (y - 1) div 400"

definition days_before_month :: "int \<Rightarrow> int \<Rightarrow> int" where
  "days_before_month y m = sum_list (map (days_in_month y) [1..m - 1])"

text \<open>The constructor \<^verbatim>\<open>datetime(y, m, d, H, M, S)\<close>, which rejects values out of range.\<close>

definition make_datetime :: "int \<Rightarrow> int \<Rightarrow> int \<Rightarrow> int \<Rightarrow> int \<Rightarrow> int \<Rightarrow> error + datetime" where
  "make_datetime y m d H M S =
     (if 1 \<le> y \<and> y \<le> 9999 \<and> 1 \<le> m \<and> m \<le> 12 \<and> 1 \<le> d \<and> d \<le> days_in_month y m
         \<and> 0 \<le> H \<and> H < 24 \<and> 0 \<le> M \<and> M < 60 \<and> 0 \<le> S \<and> S < 60
      then Inr (((((days_before_year y + days_before_month y m + (d - 1)) * 24 + H) * 60 + M)
                  * 60 + S) * one_second)
      else Inl ValueError)"

definition digit_value :: "char \<Rightarrow> int option" where
  "digit_value c = map_of (zip ''0123456789'' [0, 1, 2, 3, 4, 5, 6, 7, 8, 9]) c"

fun number :: "int \<Rightarrow> string \<Rightarrow> int option" where
  "number acc [] = Some acc"
| "number acc (c # cs) =
     (case digit_value c of None \<Rightarrow> None | Some d \<Rightarrow> number (10 * acc + d) cs)"

definition field_width :: "char \<Rightarrow> nat" where
  "field_width d =
     (if d = CHR ''Y'' then 4
      else if d \<in> set ''mdHMS'' then 2
      else 0)"

text \<open>
  Matching a string against a format: a directive \<^verbatim>\<open>%Y\<close>, \<^verbatim>\<open>%m\<close>, \<^verbatim>\<open>%d\<close>,
  \<^verbatim>\<open>%H\<close>, \<^verbatim>\<open>%M\<close> or \<^verbatim>\<open>%S\<close> takes a field of four or two digits, any other
  character of the format stands for itself, and nothing may remain.
\<close>

fun scan :: "string \<Rightarrow> string \<Rightarrow> (char \<times> int) list option" where
  "scan [] s = (if s = [] then Some [] else None)"
| "scan [f] s = (if s = [f] \<and> f \<noteq> CHR ''%'' then Some [] else None)"
| "scan (f # d # fmt) s =
     (if f = CHR ''%'' then
        (if field_width d = 0 \<or> length s < field_width d then None
         else (case number 0 (take (field_width d) s) of
                 None \<Rightarrow> None
               | Some n \<Rightarrow> map_option ((#) (d, n)) (scan fmt (drop (field_width d) s))))
      else (case s of
              [] \<Rightarrow> None
            | c # s' \<Rightarrow> if c = f then scan (d # fmt) s' else None))"

definition field :: "(char \<times> int) list \<Rightarrow> char \<Rightarrow> int \<Rightarrow> int" where
  "field fs d dflt = (case map_of fs d of None \<Rightarrow> dflt | Some n \<Rightarrow> n)"

text \<open>
  Modelled from the spec: \<^verbatim>\<open>datetime.strptime(s, fmt)\<close> of the standard library, for
  the time stamps the spec names, a date of 8 digits and a full time stamp of 14 digits, and
  for the two ISO layouts of the query dates. Every field is zero-padded to its full width.
  Strings with shortened fields, which the library also reads, are outside this model and
  count as not matching; no statement below rests on a parse that fails.
\<close>

definition strptime :: "string \<Rightarrow> string \<Rightarrow> error + datetime" where
  "strptime s fmt =
     (case scan fmt s of
        None \<Rightarrow> Inl ValueError
      | Some fs \<Rightarrow>
          make_datetime (field fs CHR ''Y'' 1900) (field fs CHR ''m'' 1) (field fs CHR ''d'' 1)
            (field fs CHR ''H'' 0) (field fs CHR ''M'' 0) (field fs CHR ''S'' 0))"

text \<open>
  \<^verbatim>\<open>sunpy.time.TimeRange\<close> belongs to the sunpy library, not to the source. A range
  has a start and an end. The constructor \<^verbatim>\<open>TimeRange(a, b)\<close> takes two times and puts
  the earlier one first: when \<open>b\<close> is before \<open>a\<close>, the start of the range is \<open>b\<close> and
  its end is \<open>a\<close>.
\<close>

record TimeRange =
  range_start :: datetime
  range_end :: datetime

definition time_range :: "datetime \<Rightarrow> datetime \<Rightarrow> TimeRange" where
  "time_range a b =
     (if b < a then \<lparr>range_start = b, range_end = a\<rparr>
      else \<lparr>range_start = a, range_end = b\<rparr>)"

section \<open>Intervals of the files of a query\<close>

text \<open>
  The start time of a parsed name as \<^verbatim>\<open>MMSDownloader.intervals\<close> reads it, from
  \<^verbatim>\<open>parts[i][5]\<close>.
\<close>

definition interval_start :: "string list \<Rightarrow> error + datetime" where
  "interval_start part =
     and_then (index part 5) (\<lambda>tstart.
       if length tstart = 8 then strptime tstart ''%Y%m%d''
       else strptime tstart ''%Y%m%d%H%M%S'')"

text \<open>
  The loop of \<^verbatim>\<open>MMSDownloader.intervals\<close>. It runs from the last file to the first, so
  the intervals of the later files are built before the start of the current file is parsed;
  \<^verbatim>\<open>trange[i+1]\<close> is the head of what has been built.
\<close>

fun intervals_loop :: "string list list \<Rightarrow> datetime \<Rightarrow> error + TimeRange list" where
  "intervals_loop [] end_date = Inr []"
| "intervals_loop [part] end_date =
     and_then (interval_start part) (\<lambda>start.
       Inr [time_range start end_date])"
| "intervals_loop (part # next_part # parts) end_date =
     and_then (intervals_loop (next_part # parts) end_date) (\<lambda>trange.
     and_then (interval_start part) (\<lambda>start.
       Inr (time_range start (range_start (hd trange) - one_second) # trange)))"

text \<open>
  \<^verbatim>\<open>MMSDownloader.intervals\<close>, as a function of the two things it reads from the
  object: the file names that \<^verbatim>\<open>self.file_names()\<close> returns and \<^verbatim>\<open>self.end_date\<close>.
\<close>

definition intervals :: "string list \<Rightarrow> datetime \<Rightarrow> error + TimeRange list" where
  "intervals fnames end_date = intervals_loop (parse_file_names fnames) end_date"

section \<open>Filter by time\<close>

text \<open>A list comprehension whose body can raise: the first exception ends it.\<close>

fun map_err :: "('a \<Rightarrow> error + 'b) \<Rightarrow> 'a list \<Rightarrow> error + 'b list" where
  "map_err f [] = Inr []"
| "map_err f (x # xs) =
     and_then (f x) (\<lambda>y. and_then (map_err f xs) (\<lambda>ys. Inr (y # ys)))"

text \<open>The start time of a parsed name as \<^verbatim>\<open>filter_time\<close> reads it, from \<^verbatim>\<open>name[-2]\<close>.\<close>

definition file_start :: "string list \<Rightarrow> error + datetime" where
  "file_start name =
     and_then (index name (- 2)) (\<lambda>tstart.
       if length tstart = 8 then strptime tstart ''%Y%m%d''
       else strptime tstart ''%Y%m%d%H%M%S'')"

text \<open>\<^verbatim>\<open>[i for i, t in enumerate(ts) if p(t)]\<close>\<close>

definition indices_where :: "('a \<Rightarrow> bool) \<Rightarrow> 'a list \<Rightarrow> nat list" where
  "indices_where p ts = filter (\<lambda>i. p (ts ! i)) [0..<length ts]"

text \<open>\<^verbatim>\<open>[xs[i] for i in idx]\<close>, for indices that are in range.\<close>

definition select :: "'a list \<Rightarrow> nat list \<Rightarrow> 'a list" where
  "select xs idx = map (\<lambda>i. xs ! i) idx"

text \<open>
  The choice of the indices to keep at the start of the range. Both conditions are built
  with \<^verbatim>\<open>&\<close>, which evaluates its two operands: the first reads \<^verbatim>\<open>fstart[-1]\<close> and
  the second \<^verbatim>\<open>idx[0]\<close> whatever the length of \<^verbatim>\<open>idx\<close> is.
\<close>

definition start_indices :: "datetime list \<Rightarrow> datetime \<Rightarrow> error + nat list" where
  "start_indices fstart start_date =
     (let idx = indices_where (\<lambda>t. start_date \<le> t) fstart
      in and_then (index fstart (- 1)) (\<lambda>latest.
           if length idx = 0 \<and> date latest = date start_date
           then Inr [length fstart - 1]
           else and_then (index idx 0) (\<lambda>first.
             and_then (index fstart (int first)) (\<lambda>t.
               if length idx \<noteq> 0 \<and> first \<noteq> 0 \<and> t \<noteq> start_date
               then Inr (list_insert 0 (first - 1) idx)
               else Inr idx))))"

text \<open>
  \<^verbatim>\<open>filter_time(fnames, start_date, end_date)\<close> for a list of names. The sort of the
  indices by start time is stable, as \<^verbatim>\<open>sorted\<close> is.
\<close>

definition filter_time :: "string list \<Rightarrow> datetime \<Rightarrow> datetime \<Rightarrow> error + string list" where
  "filter_time fnames start_date end_date =
     (let files = fnames;
          parts = parse_file_names fnames
      in and_then (map_err file_start parts) (\<lambda>fstart.
           let isort = sort_key (\<lambda>k. fstart ! k) [0..<length fstart];
               fstart = select fstart isort;
               files = select files isort;
               idx = indices_where (\<lambda>t. t \<le> end_date) fstart;
               fstart = (if length idx > 0 then select fstart idx else []);
               files = (if length idx > 0 then select files idx else [])
           in and_then (start_indices fstart start_date) (\<lambda>idx.
                Inr (if length idx > 0 then select files idx else []))))"

section \<open>Filter by version\<close>

text \<open>
  Looking up a module-level name that the code calls to parse a list of file names. The
  module binds \<^verbatim>\<open>parse_file_names\<close>. The two other names under which the code calls a
  parser, \<^verbatim>\<open>parse_filename\<close> and \<^verbatim>\<open>mms_parse_filename\<close>, are bound nowhere: not by a
  definition or an import of the module, and not by the builtins.
\<close>

definition lookup_parser :: "string \<Rightarrow> error + (string list \<Rightarrow> string list list)" where
  "lookup_parser name =
     (if name = ''parse_file_names'' then Inr parse_file_names else Inl NameError)"

text \<open>
  \<^verbatim>\<open>i, test_base = base\<close>, for a string: a string of two characters unpacks into
  them, and a string of any other length raises \<^verbatim>\<open>ValueError\<close>.
\<close>

definition unpack_pair :: "string \<Rightarrow> error + string \<times> string" where
  "unpack_pair base =
     (if length base = 2 then Inr ([base ! 0], [base ! 1]) else Inl ValueError)"

text \<open>
  The loop over the types of file of the branch of \<^verbatim>\<open>latest\<close>. The comprehension of
  \<^verbatim>\<open>test_idx\<close> iterates over the strings of \<^verbatim>\<open>bases\<close> themselves, not over their
  enumeration, so every base is unpacked and \<^verbatim>\<open>test_idx\<close> holds strings. The inner
  loop then indexes \<^verbatim>\<open>versions\<close> with a string, which raises \<^verbatim>\<open>TypeError\<close>
  before any two versions are compared.
\<close>

fun latest_loop ::
  "string list \<Rightarrow> string list \<Rightarrow> string list \<Rightarrow> nat \<Rightarrow> string list \<Rightarrow> error + string list" where
  "latest_loop files bases versions idx [] = Inr []"
| "latest_loop files bases versions idx (uniq_base # uniq_bases) =
     and_then (map_err unpack_pair bases) (\<lambda>pairs.
       let test_idx = map fst (filter (\<lambda>p. snd p = uniq_base) pairs)
       in and_then (index files (int idx)) (\<lambda>file_ref.
          and_then (index versions (int idx)) (\<lambda>version_ref.
            if test_idx \<noteq> [] then Inl TypeError
            else and_then (latest_loop files bases versions (idx + 1) uniq_bases)
                   (\<lambda>filtered_files. Inr (file_ref # filtered_files)))))"

text \<open>
  The branch of \<^verbatim>\<open>latest\<close>, given the parser. \<^verbatim>\<open>list(set(bases))\<close> holds every
  base once, in an order that the language leaves open; \<open>remdups\<close> is one such order.
\<close>

definition latest_versions ::
  "(string list \<Rightarrow> string list list) \<Rightarrow> string list \<Rightarrow> error + string list" where
  "latest_versions parse files =
     (let parts = parse files;
          bases = map (\<lambda>part. join ''_'' (slice 0 (- 2) part)) parts
      in and_then (map_err (\<lambda>part. index part (- 1)) parts) (\<lambda>versions.
           let uniq_bases = remdups bases
           in latest_loop files bases versions 0 uniq_bases))"

text \<open>
  \<^verbatim>\<open>filter_version(files, latest, version, min_version)\<close>.

  The first test reads \<^verbatim>\<open>min is None\<close>, and \<^verbatim>\<open>min\<close> is the builtin function, so the
  test is false and \<^verbatim>\<open>latest\<close> keeps the value it was given. The second test builds a
  \<^verbatim>\<open>ValueError\<close> without raising it. The branch of \<^verbatim>\<open>latest\<close> starts by calling
  \<^verbatim>\<open>mms_parse_filename\<close>; the branch of \<^verbatim>\<open>min_version\<close> reads the local
  \<^verbatim>\<open>versions\<close>, which only the branch of \<^verbatim>\<open>latest\<close> assigns; the branch of
  \<^verbatim>\<open>version\<close> calls \<^verbatim>\<open>min_version.split\<close>, and \<^verbatim>\<open>min_version\<close> is \<^verbatim>\<open>None\<close>
  there.
\<close>

definition builtin_min_is_None :: bool where
  "builtin_min_is_None = False"

definition filter_version ::
  "string list \<Rightarrow> bool option \<Rightarrow> string option \<Rightarrow> string option \<Rightarrow> error + string list" where
  "filter_version files latest version min_version =
     (let latest = (if version = None \<and> builtin_min_is_None then Some True else latest);
          filtered_files = []
      in if latest = Some True then
           and_then (lookup_parser ''mms_parse_filename'') (\<lambda>parse.
             latest_versions parse files)
         else if min_version \<noteq> None then Inl UnboundLocalError
         else if version \<noteq> None then Inl AttributeError
         else Inr filtered_files)"

section \<open>Paths\<close>

text \<open>
  \<^verbatim>\<open>construct_path(sc, instr, mode, level, tstart, optdesc, root, files)\<close>. The
  directory of the day, \<^verbatim>\<open>t[6:8]\<close>, is added when the mode is \<^verbatim>\<open>brst\<close>.
\<close>

definition construct_path ::
  "arg \<Rightarrow> arg \<Rightarrow> arg \<Rightarrow> arg \<Rightarrow> arg \<Rightarrow> arg \<Rightarrow> string \<Rightarrow> bool \<Rightarrow> error + string list" where
  "construct_path sc instr mode level tstart optdesc root files =
     (let sc = as_list sc; instr = as_list instr; mode = as_list mode;
          level = as_list level; tstart = as_list tstart; optdesc = as_list optdesc;
          sc_ids = sc
      in if files then
           (if optdesc = ANone then
              for_in sc_ids (\<lambda>s. for_in instr (\<lambda>i. for_in mode (\<lambda>m.
              for_in level (\<lambda>l. for_in tstart (\<lambda>t.
                Inr [if m = ''brst''
                     then path_join root [s, i, m, l, slice 0 4 t, slice 4 6 t, slice 6 8 t,
                            join ''_'' [s, i, m, l, t @ ''*'', ''v*.cdf'']]
                     else path_join root [s, i, m, l, slice 0 4 t, slice 4 6 t,
                            join ''_'' [s, i, m, l, t @ ''*'', ''v*.cdf'']]])))))
            else
              for_in sc_ids (\<lambda>s. for_in instr (\<lambda>i. for_in mode (\<lambda>m.
              for_in level (\<lambda>l. for_in optdesc (\<lambda>ou. for_in tstart (\<lambda>t.
                Inr [if m = ''brst''
                     then path_join root [s, i, m, l, ou, slice 0 4 t, slice 4 6 t, slice 6 8 t,
                            join ''_'' [s, i, m, l, ou, t @ ''*'', ''v*.cdf'']]
                     else path_join root [s, i, m, l, ou, slice 0 4 t, slice 4 6 t,
                            join ''_'' [s, i, m, l, ou, t @ ''*'', ''v*.cdf'']]])))))))
         else
           (if optdesc = ANone then
              for_in sc_ids (\<lambda>s. for_in instr (\<lambda>i. for_in mode (\<lambda>m.
              for_in level (\<lambda>l. for_in tstart (\<lambda>t.
                Inr [if m = ''brst''
                     then path_join root [s, i, m, l, slice 0 4 t, slice 4 6 t, slice 6 8 t]
                     else path_join root [s, i, m, l, slice 0 4 t, slice 4 6 t]])))))
            else
              for_in sc_ids (\<lambda>s. for_in instr (\<lambda>i. for_in mode (\<lambda>m.
              for_in level (\<lambda>l. for_in optdesc (\<lambda>ou. for_in tstart (\<lambda>t.
                Inr [if m = ''brst''
                     then path_join root [s, i, m, l, ou, slice 0 4 t, slice 4 6 t, slice 6 8 t]
                     else path_join root [s, i, m, l, ou, slice 0 4 t, slice 4 6 t]]))))))))"

text \<open>
  The loop of \<^verbatim>\<open>filename2path\<close> over the parsed names. The test for the directory of the
  day reads \<^verbatim>\<open>part[3]\<close>, which is the level; the mode is \<^verbatim>\<open>part[2]\<close>.
\<close>

fun filename2path_loop ::
  "string \<Rightarrow> string list \<Rightarrow> nat \<Rightarrow> string list list \<Rightarrow> error + string list" where
  "filename2path_loop root fnames idx [] = Inr []"
| "filename2path_loop root fnames idx (part # parts) =
     and_then (index part 5) (\<lambda>tstart.
     and_then (index part 3) (\<lambda>part3.
       let path = path_join root (slice 0 5 part @ [slice 0 4 tstart, slice 4 6 tstart]);
           path = (if part3 = ''brst'' then path_join path [slice 6 8 tstart] else path)
       in and_then (index fnames (int idx)) (\<lambda>fname.
          and_then (filename2path_loop root fnames (idx + 1) parts) (\<lambda>paths.
            Inr (path_join path [fname] # paths)))))"

text \<open>
  \<^verbatim>\<open>filename2path(fnames, root)\<close> for a list of names. The parser is called under the
  name \<^verbatim>\<open>parse_filename\<close>.
\<close>

definition filename2path :: "string list \<Rightarrow> string \<Rightarrow> error + string list" where
  "filename2path fnames root =
     and_then (lookup_parser ''parse_filename'') (\<lambda>parse.
       filename2path_loop root fnames 0 (parse fnames))"

section \<open>The attributes of the downloader\<close>

text \<open>The values that are assigned to the attributes of an \<^verbatim>\<open>MMSDownloader\<close>.\<close>

datatype pyval =
    PNone
  | PBool bool
  | PInt int
  | PStr string
  | PList "pyval list"
  | PDatetime datetime
  | PObject string

text \<open>
  An instance is the dictionary of its attributes. The base class \<^verbatim>\<open>util.Downloader\<close>
  is not part of the source; \<^verbatim>\<open>super().__setattr__(name, value)\<close> is taken to be the
  plain assignment of \<^verbatim>\<open>object\<close>.
\<close>

type_synonym downloader = "string \<rightharpoonup> pyval"

definition object_setattr :: "downloader \<Rightarrow> string \<Rightarrow> pyval \<Rightarrow> downloader" where
  "object_setattr self name val = self(name \<mapsto> val)"

text \<open>The branch of \<^verbatim>\<open>__setattr__\<close> for \<^verbatim>\<open>site\<close>.\<close>

definition set_site :: "downloader \<Rightarrow> pyval \<Rightarrow> error + downloader" where
  "set_site self val =
     (if val \<in> set [PStr ''private'', PStr ''team'', PStr ''sitl'']
      then Inr (object_setattr self ''site'' (PStr ''sitl''))
      else if val = PStr ''public''
      then Inr (object_setattr self ''site'' (PStr ''public''))
      else Inl ValueError)"

text \<open>The branch for \<^verbatim>\<open>data_type\<close>.\<close>

definition set_data_type :: "downloader \<Rightarrow> pyval \<Rightarrow> error + downloader" where
  "set_data_type self val =
     (if val \<notin> set [PStr ''ancillary'', PStr ''hk'', PStr ''science'']
      then Inl ValueError
      else Inr (object_setattr self ''data_type'' val))"

text \<open>The branch for \<^verbatim>\<open>level\<close>, which assigns \<^verbatim>\<open>site\<close> first.\<close>

definition set_level :: "downloader \<Rightarrow> pyval \<Rightarrow> error + downloader" where
  "set_level self val =
     and_then
       (if val \<in> set [PNone, PStr ''l2'', PStr ''l3'']
        then set_site self (PStr ''public'')
        else set_site self (PStr ''private''))
       (\<lambda>self. Inr (object_setattr self ''level'' val))"

text \<open>
  The conversion of \<^verbatim>\<open>start_date\<close> and \<^verbatim>\<open>end_date\<close>: a string is parsed, first
  its 19 leading characters as date and time, then the whole of it as a date; when both fail,
  the \<^verbatim>\<open>ValueError\<close> is built but not raised, and the string is stored.
\<close>

definition convert_date :: "pyval \<Rightarrow> pyval" where
  "convert_date val =
     (case val of
        PStr s \<Rightarrow>
          (case strptime (slice 0 19 s) ''%Y-%m-%dT%H:%M:%S'' of
             Inr t \<Rightarrow> PDatetime t
           | Inl e \<Rightarrow>
               (case strptime s ''%Y-%m-%d'' of
                  Inr t \<Rightarrow> PDatetime t
                | Inl e' \<Rightarrow> val))
      | _ \<Rightarrow> val)"

text \<open>
  \<^verbatim>\<open>MMSDownloader.__setattr__(self, name, value)\<close>. An assignment to an attribute in
  its body is a call of \<^verbatim>\<open>__setattr__\<close> again, written here as the branch of that
  attribute.
\<close>

definition setattr :: "downloader \<Rightarrow> string \<Rightarrow> pyval \<Rightarrow> error + downloader" where
  "setattr self name val =
     (if name = ''anc_product'' then
        and_then (set_data_type self (PStr ''ancillary'')) (\<lambda>self.
          Inr (object_setattr self name val))
      else if name = ''data_type'' then set_data_type self val
      else if name = ''end_date'' then Inr (object_setattr self name (convert_date val))
      else if name = ''files'' then
        (if val \<noteq> PNone then
           (let self = object_setattr self ''sc'' PNone;
                self = object_setattr self ''instr'' PNone;
                self = object_setattr self ''mode'' PNone
            in and_then (set_level self PNone) (\<lambda>self.
                 let self = object_setattr self ''optdesc'' PNone;
                     self = object_setattr self ''version'' PNone
                 in Inr (object_setattr self name val)))
         else Inr (object_setattr self name val))
      else if name = ''level'' then set_level self val
      else if name = ''site'' then set_site self val
      else if name = ''start_date'' then Inr (object_setattr self name (convert_date val))
      else Inr (object_setattr self name val))"

text \<open>A run of assignments \<^verbatim>\<open>self.name = value\<close>; the first exception ends it.\<close>

fun assign_all :: "downloader \<Rightarrow> (string \<times> pyval) list \<Rightarrow> error + downloader" where
  "assign_all self [] = Inr self"
| "assign_all self ((name, val) # rest) =
     and_then (setattr self name val) (\<lambda>self. assign_all self rest)"

text \<open>
  The assignments of \<^verbatim>\<open>MMSDownloader.__init__\<close>, in the order of the source. The two
  values that come from outside the source are parameters: \<open>default_root\<close> is
  \<^verbatim>\<open>pathlib.Path(heliopy.config['download_dir']) / 'mms'\<close> and \<open>session\<close> is
  \<^verbatim>\<open>requests.Session()\<close>.
\<close>

definition init_assignments ::
  "pyval \<Rightarrow> pyval \<Rightarrow> pyval \<Rightarrow> pyval \<Rightarrow> pyval \<Rightarrow> pyval \<Rightarrow> pyval \<Rightarrow> pyval \<Rightarrow> pyval \<Rightarrow> pyval \<Rightarrow>
   pyval \<Rightarrow> pyval \<Rightarrow> pyval \<Rightarrow> pyval \<Rightarrow> pyval \<Rightarrow> pyval \<Rightarrow> pyval \<Rightarrow> pyval \<Rightarrow>
   (string \<times> pyval) list" where
  "init_assignments sc instr mode level anc_product data_type data_root dropbox_root end_date
        files mirror_root offline optdesc site start_date version default_root session =
     [(''site'', site),
      (''anc_product'', anc_product),
      (''data_type'', data_type),
      (''dropbox_root'', dropbox_root),
      (''end_date'', end_date),
      (''instr'', instr),
      (''level'', level),
      (''mirror_root'', mirror_root),
      (''mode'', mode),
      (''offline'', offline),
      (''optdesc'', optdesc),
      (''sc'', sc),
      (''start_date'', start_date),
      (''version'', version),
      (''files'', files),
      (''data_root'', if data_root = PNone then default_root else data_root),
      (''_sdc_home'', PStr ''https://lasp.colorado.edu/mms/sdc''),
      (''_info_type'', PStr ''download''),
      (''_session'', session)]"

text \<open>
  \<^verbatim>\<open>MMSDownloader.__init__\<close>, from an instance without attributes: every assignment
  goes through \<^verbatim>\<open>__setattr__\<close>.
\<close>

definition init ::
  "pyval \<Rightarrow> pyval \<Rightarrow> pyval \<Rightarrow> pyval \<Rightarrow> pyval \<Rightarrow> pyval \<Rightarrow> pyval \<Rightarrow> pyval \<Rightarrow> pyval \<Rightarrow> pyval \<Rightarrow>
   pyval \<Rightarrow> pyval \<Rightarrow> pyval \<Rightarrow> pyval \<Rightarrow> pyval \<Rightarrow> pyval \<Rightarrow> pyval \<Rightarrow> pyval \<Rightarrow> error + downloader" where
  "init sc instr mode level anc_product data_type data_root dropbox_root end_date files
        mirror_root offline optdesc site start_date version default_root session =
     assign_all Map.empty
       (init_assignments sc instr mode level anc_product data_type data_root dropbox_root
          end_date files mirror_root offline optdesc site start_date version default_root
          session)"

section \<open>Files of the scenarios\<close>

definition file_20181231 :: string where
  "file_20181231 = ''mms1_fpi_fast_l2_des-moms_20181231_v1.0.0.cdf''"

definition file_20190101 :: string where
  "file_20190101 = ''mms1_fpi_fast_l2_des-moms_20190101_v1.0.0.cdf''"

definition file_20190102 :: string where
  "file_20190102 = ''mms1_fpi_fast_l2_des-moms_20190102_v1.0.0.cdf''"

definition file_20190105 :: string where
  "file_20190105 = ''mms1_fpi_fast_l2_des-moms_20190105_v1.0.0.cdf''"

definition file_v9 :: string where
  "file_v9 = ''mms1_fpi_fast_l2_des-moms_20190101_v9.9.9.cdf''"

definition file_v10 :: string where
  "file_v10 = ''mms1_fpi_fast_l2_des-moms_20190101_v10.0.0.cdf''"

definition burst_file :: string where
  "burst_file = ''mms1_fpi_brst_l2_dis-moms_20190101120000_v1.0.0.cdf''"

section \<open>Round trip of the file name codec\<close>

lemma split_on_segment:
  "c \<notin> set x \<Longrightarrow> split_on c (x @ c # rest) = x # split_on c rest"
  by (induction x) auto

lemma split_on_single: "c \<notin> set x \<Longrightarrow> split_on c x = [x]"
  by (induction x) auto

lemma split_on_join:
  "xs \<noteq> [] \<Longrightarrow> \<forall>x \<in> set xs. c \<notin> set x \<Longrightarrow> split_on c (join [c] xs) = xs"
proof (induction xs)
  case Nil
  then show ?case by simp
next
  case (Cons x xs)
  show ?case
  proof (cases xs)
    case Nil
    with Cons.prems show ?thesis by (simp add: split_on_single)
  next
    case (Cons y ys)
    with Cons.prems Cons.IH show ?thesis by (simp add: split_on_segment)
  qed
qed

lemma basename_plain: "CHR ''/'' \<notin> set p \<Longrightarrow> basename p = p"
proof -
  assume "CHR ''/'' \<notin> set p"
  then have "\<forall>c \<in> set (rev p). c \<noteq> CHR ''/''" by auto
  then have "takeWhile (\<lambda>c. c \<noteq> CHR ''/'') (rev p) = rev p"
    by (simp only: takeWhile_eq_all_conv)
  then show ?thesis unfolding basename_def by (simp only: rev_rev_ident)
qed

lemma set_join_subset: "set (join sep xs) \<subseteq> set sep \<union> \<Union> (set ` set xs)"
  by (induction sep xs rule: join.induct) auto

lemma slice_version: "slice 1 (- 4) (CHR ''v'' # v @ ''.cdf'') = v"
  by (simp add: slice_def clamp_index_def)

lemma for_in_single: "for_in (AList [x]) f = and_then (f x) (\<lambda>ys. Inr ys)"
  by (simp add: for_in_def and_then_def split: sum.splits)

text \<open>
  C5. A file name built from single components that are valid segments parses back to the
  same components: spacecraft, instrument, mode, level, descriptor, start time and version,
  with the empty string for a descriptor that was left out.
\<close>

theorem parse_construct_roundtrip:
  assumes "valid_segment sc" "valid_segment instr" "valid_segment mode" "valid_segment level"
    "valid_segment tstart" "valid_segment version"
    "valid_segment (descriptor_field optdesc)"
  shows "and_then
           (construct_filename (AStr sc) (AStr instr) (AStr mode) (AStr level) (AStr tstart)
              (AStr version) (descriptor_arg optdesc))
           (\<lambda>names. Inr (parse_file_names names))
         = Inr [[sc, instr, mode, level, descriptor_field optdesc, tstart, version]]"
proof (cases optdesc)
  case None
  let ?segs = "[sc, instr, mode, level, tstart, ''v'' @ version @ ''.cdf'']"
  let ?name = "join ''_'' ?segs"
  have c: "construct_filename (AStr sc) (AStr instr) (AStr mode) (AStr level) (AStr tstart)
              (AStr version) (descriptor_arg optdesc) = Inr [?name]"
    using None by (simp add: construct_filename_def for_in_single and_then_def)
  have us: "\<forall>x \<in> set ?segs. CHR ''_'' \<notin> set x"
    using assms by (simp add: valid_segment_def)
  have sl: "CHR ''/'' \<notin> set ?name"
    using assms set_join_subset[of "''_''" ?segs] by (simp add: valid_segment_def subset_iff)
  have sp: "split_on CHR ''_'' (basename ?name) = ?segs"
    using split_on_join[OF _ us] sl by (simp add: basename_plain)
  have "parse_file_name ?name = [sc, instr, mode, level, [], tstart, version]"
    unfolding parse_file_name_def sp
    using slice_version[of version] by (simp add: list_insert_def clamp_index_def)
  with c None show ?thesis by (simp add: and_then_def parse_file_names_def)
next
  case (Some d)
  let ?segs = "[sc, instr, mode, level, d, tstart, ''v'' @ version @ ''.cdf'']"
  let ?name = "join ''_'' ?segs"
  have c: "construct_filename (AStr sc) (AStr instr) (AStr mode) (AStr level) (AStr tstart)
              (AStr version) (descriptor_arg optdesc) = Inr [?name]"
    using Some by (simp add: construct_filename_def for_in_single and_then_def)
  have us: "\<forall>x \<in> set ?segs. CHR ''_'' \<notin> set x"
    using assms Some by (simp add: valid_segment_def)
  have sl: "CHR ''/'' \<notin> set ?name"
    using assms Some set_join_subset[of "''_''" ?segs]
    by (simp add: valid_segment_def subset_iff)
  have sp: "split_on CHR ''_'' (basename ?name) = ?segs"
    using split_on_join[OF _ us] sl by (simp add: basename_plain)
  have "parse_file_name ?name = [sc, instr, mode, level, d, tstart, version]"
    unfolding parse_file_name_def sp
    using slice_version[of version] by simp
  with c Some show ?thesis by (simp add: and_then_def parse_file_names_def)
qed

theorem parse_construct_roundtrip_witness:
  "valid_segment ''mms1'' \<and> valid_segment ''fpi'' \<and> valid_segment ''brst''
   \<and> valid_segment ''l2'' \<and> valid_segment ''20190101120000'' \<and> valid_segment ''10.0.0''
   \<and> valid_segment (descriptor_field (Some ''dis-moms''))
   \<and> and_then
        (construct_filename (AStr ''mms1'') (AStr ''fpi'') (AStr ''brst'') (AStr ''l2'')
           (AStr ''20190101120000'') (AStr ''10.0.0'') (descriptor_arg (Some ''dis-moms'')))
        (\<lambda>names. Inr (parse_file_names names))
      = Inr [[''mms1'', ''fpi'', ''brst'', ''l2'', descriptor_field (Some ''dis-moms''),
              ''20190101120000'', ''10.0.0'']]"
proof -
  have v: "valid_segment ''mms1''" "valid_segment ''fpi''" "valid_segment ''brst''"
    "valid_segment ''l2''" "valid_segment ''20190101120000''" "valid_segment ''10.0.0''"
    "valid_segment (descriptor_field (Some ''dis-moms''))"
    by (simp_all add: valid_segment_def)
  from parse_construct_roundtrip[OF v] v show ?thesis by blast
qed

section \<open>The time filter on the scenario of the spec\<close>

lemma scenario_starts:
  "map_err file_start (parse_file_names [file_20181231, file_20190101, file_20190102])
   = Inr [63681811200000000, 63681897600000000, 63681984000000000]"
  by code_simp

lemma noon_20190101: "make_datetime 2019 1 1 12 0 0 = Inr 63681940800000000"
  by code_simp

lemma midnight_20190102: "make_datetime 2019 1 2 0 0 0 = Inr 63681984000000000"
  by code_simp

text \<open>
  C4, as stated, fails. With the start of the query at 2019-01-01T12:00:00, the end at
  2019-01-03 and files that start on 2018-12-31, 2019-01-01 and 2019-01-02, the filter does
  not keep the three files.
\<close>

theorem filter_time_scenario_counterexample:
  "filter_time [file_20181231, file_20190101, file_20190102]
     (projr (make_datetime 2019 1 1 12 0 0)) (projr (make_datetime 2019 1 3 0 0 0))
   \<noteq> Inr [file_20181231, file_20190101, file_20190102]"
  by code_simp

text \<open>
  C4, amended. With the start of the query at 2019-01-01T12:00:00, an end of the query that
  keeps all candidates, and files that start on 2018-12-31, 2019-01-01 and 2019-01-02, the
  filter keeps the files of 2019-01-01 and 2019-01-02: the first file that starts in the
  range and the one file before it.
\<close>

theorem filter_time_scenario:
  assumes "make_datetime 2019 1 1 12 0 0 = Inr start_date"
    and "make_datetime 2019 1 2 0 0 0 = Inr last_start"
    and "last_start \<le> end_date"
  shows "filter_time [file_20181231, file_20190101, file_20190102] start_date end_date
         = Inr [file_20190101, file_20190102]"
proof -
  have s: "start_date = 63681940800000000"
    using assms(1) noon_20190101 by simp
  have e: "63681984000000000 \<le> end_date"
    using assms(2,3) midnight_20190102 by simp
  have so: "sort_key (\<lambda>k. [63681811200000000, 63681897600000000, 63681984000000000::int] ! k)
              [0..<3] = [0, 1, 2]"
    by code_simp
  have up: "[0..<3] = [0, 1, 2]"
    by code_simp
  show ?thesis
    unfolding filter_time_def Let_def scenario_starts and_then_def
    using e by (simp add: so up select_def indices_where_def start_indices_def index_def s
        list_insert_def clamp_index_def Let_def and_then_def)
qed

theorem filter_time_scenario_witness:
  "make_datetime 2019 1 1 12 0 0 = Inr 63681940800000000
   \<and> make_datetime 2019 1 2 0 0 0 = Inr 63681984000000000
   \<and> (63681984000000000 :: int) \<le> 63682070400000000
   \<and> filter_time [file_20181231, file_20190101, file_20190102]
        63681940800000000 63682070400000000
      = Inr [file_20190101, file_20190102]"
  using filter_time_scenario[OF noon_20190101 midnight_20190102, of 63682070400000000]
    noon_20190101 midnight_20190102
  by simp

section \<open>Empty results of the time filter\<close>

text \<open>
  C6. The claim is that the filter returns the empty list, without an exception, for an empty
  list of files and for a list without a file in the range. The code raises
  \<^verbatim>\<open>IndexError\<close> in both cases: for the empty list, and for a file of 2019-01-05 with
  the range from 2019-01-01 to 2019-01-02.
\<close>

theorem filter_time_empty_raises:
  "filter_time [] start_date end_date = Inl IndexError
   \<and> filter_time [file_20190105] (projr (make_datetime 2019 1 1 0 0 0))
        (projr (make_datetime 2019 1 2 0 0 0)) = Inl IndexError"
proof
  show "filter_time [] start_date end_date = Inl IndexError"
    by (simp add: filter_time_def parse_file_names_def and_then_def select_def
        indices_where_def start_indices_def index_def)
  show "filter_time [file_20190105] (projr (make_datetime 2019 1 1 0 0 0))
        (projr (make_datetime 2019 1 2 0 0 0)) = Inl IndexError"
    by code_simp
qed

section \<open>The version filter\<close>

text \<open>
  C1. The claim is that the filter, called without a mode, keeps the latest version of each
  file type, so version 10.0.0 rather than 9.9.9. The code returns the empty list when no
  mode is given, and raises \<^verbatim>\<open>NameError\<close> when the latest version is asked for.
\<close>

theorem filter_version_latest_default:
  "filter_version files None None None = Inr []
   \<and> filter_version files (Some True) version min_version = Inl NameError
   \<and> filter_version [file_v9, file_v10] None None None \<noteq> Inr [file_v10]"
  by (simp add: filter_version_def builtin_min_is_None_def lookup_parser_def and_then_def)

text \<open>
  C7. The claim is that a call with more than one mode raises the error of conflicting
  filters. The code never raises \<^verbatim>\<open>ValueError\<close>: a call with a version and a minimum
  version raises \<^verbatim>\<open>UnboundLocalError\<close>, and a call with the latest version and a
  version raises \<^verbatim>\<open>NameError\<close>.
\<close>

theorem filter_version_conflict_not_raised:
  "filter_version files latest version min_version \<noteq> Inl ValueError
   \<and> filter_version files None (Some v) (Some v_min) = Inl UnboundLocalError
   \<and> filter_version files (Some True) (Some v) min_version = Inl NameError"
  by (simp add: filter_version_def builtin_min_is_None_def lookup_parser_def and_then_def)

section \<open>The directory of the day\<close>

text \<open>
  The path constructor adds the directory of the day exactly for the mode \<^verbatim>\<open>brst\<close>.
\<close>

lemma construct_path_day_directory:
  "construct_path (AStr s) (AStr i) (AStr m) (AStr l) (AStr t) (descriptor_arg optdesc) root False
   = Inr [path_join root
            ([s, i, m, l] @ (case optdesc of None \<Rightarrow> [] | Some d \<Rightarrow> [d])
             @ [slice 0 4 t, slice 4 6 t] @ (if m = ''brst'' then [slice 6 8 t] else []))]"
  by (cases optdesc) (simp_all add: construct_path_def for_in_single and_then_def)

text \<open>
  C8. The claim is that the path constructor and \<^verbatim>\<open>filename2path\<close> both add the
  directory of the day exactly for the mode \<^verbatim>\<open>brst\<close>. For a burst file of the descriptor
  \<^verbatim>\<open>dis-moms\<close>, \<^verbatim>\<open>filename2path\<close> raises \<^verbatim>\<open>NameError\<close>; its loop, run on
  the parts that \<^verbatim>\<open>parse_file_names\<close> gives, leaves the directory of the day out, while
  the path constructor adds it.
\<close>

theorem filename2path_burst:
  "filename2path [burst_file] root = Inl NameError
   \<and> filename2path_loop [] [burst_file] 0 (parse_file_names [burst_file])
       = Inr [''mms1/fpi/brst/l2/dis-moms/2019/01/'' @ burst_file]
   \<and> construct_path (AStr ''mms1'') (AStr ''fpi'') (AStr ''brst'') (AStr ''l2'')
        (AStr ''20190101'') (AStr ''dis-moms'') [] False
       = Inr [''mms1/fpi/brst/l2/dis-moms/2019/01/01'']"
proof (intro conjI)
  show "filename2path [burst_file] root = Inl NameError"
    by (simp add: filename2path_def lookup_parser_def and_then_def)
  show "filename2path_loop [] [burst_file] 0 (parse_file_names [burst_file])
       = Inr [''mms1/fpi/brst/l2/dis-moms/2019/01/'' @ burst_file]"
    by code_simp
  show "construct_path (AStr ''mms1'') (AStr ''fpi'') (AStr ''brst'') (AStr ''l2'')
        (AStr ''20190101'') (AStr ''dis-moms'') [] False
       = Inr [''mms1/fpi/brst/l2/dis-moms/2019/01/01'']"
    by code_simp
qed

section \<open>Assignments to the attributes\<close>

text \<open>
  C9. After a value other than \<^verbatim>\<open>None\<close> is assigned to \<^verbatim>\<open>files\<close>, the attributes
  \<^verbatim>\<open>sc\<close>, \<^verbatim>\<open>instr\<close>, \<^verbatim>\<open>mode\<close>, \<^verbatim>\<open>level\<close>, \<^verbatim>\<open>optdesc\<close> and
  \<^verbatim>\<open>version\<close> are all \<^verbatim>\<open>None\<close>, and \<^verbatim>\<open>files\<close> holds the value.
\<close>

theorem setattr_files_clears_selection:
  assumes "val \<noteq> PNone"
  shows "\<exists>self'. setattr self ''files'' val = Inr self'
           \<and> self' ''sc'' = Some PNone \<and> self' ''instr'' = Some PNone
           \<and> self' ''mode'' = Some PNone \<and> self' ''level'' = Some PNone
           \<and> self' ''optdesc'' = Some PNone \<and> self' ''version'' = Some PNone
           \<and> self' ''files'' = Some val"
  using assms
  by (simp add: setattr_def set_level_def set_site_def object_setattr_def and_then_def)

theorem setattr_files_clears_selection_witness:
  "PList [PStr ''a.cdf''] \<noteq> PNone
   \<and> (\<exists>self'. setattr (Map.empty(''sc'' \<mapsto> PStr ''mms1'')) ''files'' (PList [PStr ''a.cdf''])
                = Inr self'
           \<and> self' ''sc'' = Some PNone \<and> self' ''instr'' = Some PNone
           \<and> self' ''mode'' = Some PNone \<and> self' ''level'' = Some PNone
           \<and> self' ''optdesc'' = Some PNone \<and> self' ''version'' = Some PNone
           \<and> self' ''files'' = Some (PList [PStr ''a.cdf'']))"
  using setattr_files_clears_selection[of "PList [PStr ''a.cdf'']"
      "Map.empty(''sc'' \<mapsto> PStr ''mms1'')"]
  by simp

section \<open>The constructor and the ancillary flag\<close>

lemma setattr_anc_product:
  "setattr self ''anc_product'' val
   = Inr (self(''data_type'' \<mapsto> PStr ''ancillary'', ''anc_product'' \<mapsto> val))"
  by (simp add: setattr_def set_data_type_def object_setattr_def and_then_def)

lemma set_site_ok:
  "val \<in> set [PStr ''private'', PStr ''team'', PStr ''sitl'', PStr ''public''] \<Longrightarrow>
   \<exists>self'. set_site self val = Inr self' \<and> (\<forall>n. n \<noteq> ''site'' \<longrightarrow> self' n = self n)"
  by (auto simp: set_site_def object_setattr_def)

lemma setattr_other:
  assumes "name \<noteq> ''anc_product''" "name \<noteq> ''data_type''" "name \<noteq> ''site''"
  shows "\<exists>self'. setattr self name val = Inr self'
           \<and> self' ''data_type'' = self ''data_type''
           \<and> self' ''anc_product'' = self ''anc_product''"
  using assms
  by (simp add: setattr_def set_level_def set_site_def object_setattr_def and_then_def)

lemma assign_all_other:
  assumes "\<forall>a \<in> set asg. fst a \<noteq> ''anc_product'' \<and> fst a \<noteq> ''data_type'' \<and> fst a \<noteq> ''site''"
  shows "\<exists>self'. assign_all self asg = Inr self'
           \<and> self' ''data_type'' = self ''data_type''
           \<and> self' ''anc_product'' = self ''anc_product''"
  using assms
proof (induction asg arbitrary: self)
  case Nil
  then show ?case by simp
next
  case (Cons a asg)
  obtain name val where a: "a = (name, val)" by (cases a)
  with Cons.prems have n: "name \<noteq> ''anc_product''" "name \<noteq> ''data_type''" "name \<noteq> ''site''"
    by simp_all
  from setattr_other[OF n, of self val] obtain s1 where
    s1: "setattr self name val = Inr s1"
    and k1: "s1 ''data_type'' = self ''data_type''" "s1 ''anc_product'' = self ''anc_product''"
    by blast
  from Cons.prems have "\<forall>a \<in> set asg. fst a \<noteq> ''anc_product'' \<and> fst a \<noteq> ''data_type''
      \<and> fst a \<noteq> ''site''"
    by simp
  from Cons.IH[OF this, of s1] obtain s2 where
    "assign_all s1 asg = Inr s2" "s2 ''data_type'' = s1 ''data_type''"
    "s2 ''anc_product'' = s1 ''anc_product''"
    by blast
  with s1 k1 a show ?case by (simp add: and_then_def)
qed

lemma init_tail_names:
  "\<forall>a \<in> set (drop 3 (init_assignments sc instr mode level anc_product data_type data_root
        dropbox_root end_date files mirror_root offline optdesc site start_date version
        default_root session)).
     fst a \<noteq> ''anc_product'' \<and> fst a \<noteq> ''data_type'' \<and> fst a \<noteq> ''site''"
  by (simp add: init_assignments_def)

lemma init_head:
  "init_assignments sc instr mode level anc_product data_type data_root
        dropbox_root end_date files mirror_root offline optdesc site start_date version
        default_root session
   = (''site'', site) # (''anc_product'', anc_product) # (''data_type'', data_type)
     # drop 3 (init_assignments sc instr mode level anc_product data_type data_root
        dropbox_root end_date files mirror_root offline optdesc site start_date version
        default_root session)"
  by (simp add: init_assignments_def)

text \<open>
  C10. An assignment of any value to \<^verbatim>\<open>anc_product\<close> sets \<^verbatim>\<open>data_type\<close> to
  \<^verbatim>\<open>ancillary\<close> and stores the value, which is not looked at. The constructor assigns
  \<^verbatim>\<open>site\<close>, \<^verbatim>\<open>anc_product\<close> and \<^verbatim>\<open>data_type\<close> first, in this order. For a
  valid site and a valid data type, the object has \<^verbatim>\<open>data_type\<close> at \<^verbatim>\<open>ancillary\<close>
  after the second of them, whatever \<^verbatim>\<open>anc_product\<close> is; the constructor is the run of
  its remaining assignments from the object after the third, and ends with the
  \<^verbatim>\<open>data_type\<close> it was given. Run from the object after the second instead, without the
  assignment of \<^verbatim>\<open>data_type\<close>, the remaining assignments end with \<^verbatim>\<open>ancillary\<close>.
\<close>

theorem anc_product_sets_data_type:
  "setattr self ''anc_product'' val
     = Inr (self(''data_type'' \<mapsto> PStr ''ancillary'', ''anc_product'' \<mapsto> val))
   \<and> (site \<in> set [PStr ''private'', PStr ''team'', PStr ''sitl'', PStr ''public'']
        \<and> data_type \<in> set [PStr ''ancillary'', PStr ''hk'', PStr ''science'']
      \<longrightarrow> (\<exists>self1 self2 self3 self' self''.
             take 3 (init_assignments sc instr mode level anc_product data_type data_root
                dropbox_root end_date files mirror_root offline optdesc site start_date
                version default_root session)
               = [(''site'', site), (''anc_product'', anc_product), (''data_type'', data_type)]
           \<and> setattr Map.empty ''site'' site = Inr self1
           \<and> setattr self1 ''anc_product'' anc_product = Inr self2
           \<and> self2 ''data_type'' = Some (PStr ''ancillary'')
           \<and> setattr self2 ''data_type'' data_type = Inr self3
           \<and> init sc instr mode level anc_product data_type data_root dropbox_root end_date
                files mirror_root offline optdesc site start_date version default_root session
              = assign_all self3
                  (drop 3 (init_assignments sc instr mode level anc_product data_type
                     data_root dropbox_root end_date files mirror_root offline optdesc site
                     start_date version default_root session))
           \<and> init sc instr mode level anc_product data_type data_root dropbox_root end_date
                files mirror_root offline optdesc site start_date version default_root session
              = Inr self'
           \<and> self' ''data_type'' = Some data_type
           \<and> self' ''anc_product'' = Some anc_product
           \<and> assign_all self2
                (drop 3 (init_assignments sc instr mode level anc_product data_type
                   data_root dropbox_root end_date files mirror_root offline optdesc site
                   start_date version default_root session))
              = Inr self''
           \<and> self'' ''data_type'' = Some (PStr ''ancillary'')))"
proof (intro conjI impI)
  show "setattr self ''anc_product'' val
     = Inr (self(''data_type'' \<mapsto> PStr ''ancillary'', ''anc_product'' \<mapsto> val))"
    by (rule setattr_anc_product)
next
  let ?asg = "init_assignments sc instr mode level anc_product data_type data_root
                dropbox_root end_date files mirror_root offline optdesc site start_date
                version default_root session"
  let ?init = "init sc instr mode level anc_product data_type data_root dropbox_root end_date
                files mirror_root offline optdesc site start_date version default_root session"
  assume a: "site \<in> set [PStr ''private'', PStr ''team'', PStr ''sitl'', PStr ''public'']
        \<and> data_type \<in> set [PStr ''ancillary'', PStr ''hk'', PStr ''science'']"
  have t3: "take 3 ?asg
      = [(''site'', site), (''anc_product'', anc_product), (''data_type'', data_type)]"
    by (simp add: init_assignments_def)
  from a obtain s1 where s1: "setattr Map.empty ''site'' site = Inr s1"
    using set_site_ok[of site Map.empty] by (auto simp: setattr_def)
  define s2 where "s2 = s1(''data_type'' \<mapsto> PStr ''ancillary'', ''anc_product'' \<mapsto> anc_product)"
  have s2: "setattr s1 ''anc_product'' anc_product = Inr s2"
    by (simp add: setattr_anc_product s2_def)
  have k2: "s2 ''data_type'' = Some (PStr ''ancillary'')" "s2 ''anc_product'' = Some anc_product"
    by (simp_all add: s2_def)
  define s3 where "s3 = s2(''data_type'' \<mapsto> data_type)"
  have s3: "setattr s2 ''data_type'' data_type = Inr s3"
    using a by (auto simp: setattr_def set_data_type_def object_setattr_def s3_def)
  have k3: "s3 ''data_type'' = Some data_type" "s3 ''anc_product'' = Some anc_product"
    by (simp_all add: s3_def s2_def)
  have "?init = assign_all Map.empty
          ((''site'', site) # (''anc_product'', anc_product) # (''data_type'', data_type)
           # drop 3 ?asg)"
    unfolding init_def by (subst init_head) (rule refl)
  then have tie: "?init = assign_all s3 (drop 3 ?asg)"
    by (simp only: assign_all.simps s1 s2 s3 and_then_def sum.case)
  from assign_all_other[OF init_tail_names, of s3] k3 obtain s' where
    s': "assign_all s3 (drop 3 ?asg) = Inr s'"
    and k': "s' ''data_type'' = Some data_type" "s' ''anc_product'' = Some anc_product"
    by (metis (no_types, lifting))
  from assign_all_other[OF init_tail_names, of s2] k2 obtain s'' where
    s'': "assign_all s2 (drop 3 ?asg) = Inr s''"
    and k'': "s'' ''data_type'' = Some (PStr ''ancillary'')"
    by (metis (no_types, lifting))
  from tie s' have fin: "?init = Inr s'" by simp
  show "\<exists>self1 self2 self3 self' self''.
             take 3 ?asg
               = [(''site'', site), (''anc_product'', anc_product), (''data_type'', data_type)]
           \<and> setattr Map.empty ''site'' site = Inr self1
           \<and> setattr self1 ''anc_product'' anc_product = Inr self2
           \<and> self2 ''data_type'' = Some (PStr ''ancillary'')
           \<and> setattr self2 ''data_type'' data_type = Inr self3
           \<and> ?init = assign_all self3 (drop 3 ?asg)
           \<and> ?init = Inr self'
           \<and> self' ''data_type'' = Some data_type
           \<and> self' ''anc_product'' = Some anc_product
           \<and> assign_all self2 (drop 3 ?asg) = Inr self''
           \<and> self'' ''data_type'' = Some (PStr ''ancillary'')"
    using t3 s1 s2 k2(1) s3 tie fin k' s'' k'' by blast
qed

theorem anc_product_sets_data_type_witness:
  "setattr Map.empty ''anc_product'' PNone
     = Inr (Map.empty(''data_type'' \<mapsto> PStr ''ancillary'', ''anc_product'' \<mapsto> PNone))
   \<and> PStr ''public'' \<in> set [PStr ''private'', PStr ''team'', PStr ''sitl'', PStr ''public'']
   \<and> PStr ''science'' \<in> set [PStr ''ancillary'', PStr ''hk'', PStr ''science'']
   \<and> (\<exists>self1 self2 self3 self' self''.
             setattr Map.empty ''site'' (PStr ''public'') = Inr self1
           \<and> setattr self1 ''anc_product'' PNone = Inr self2
           \<and> self2 ''data_type'' = Some (PStr ''ancillary'')
           \<and> setattr self2 ''data_type'' (PStr ''science'') = Inr self3
           \<and> init PNone PNone PNone PNone PNone (PStr ''science'') PNone PNone PNone
                PNone PNone (PBool False) PNone (PStr ''public'') PNone PNone
                (PObject ''download_dir/mms'') (PObject ''requests.Session'')
              = Inr self'
           \<and> self' ''data_type'' = Some (PStr ''science'')
           \<and> self' ''anc_product'' = Some PNone
           \<and> assign_all self2
                (drop 3 (init_assignments PNone PNone PNone PNone PNone (PStr ''science'')
                   PNone PNone PNone PNone PNone (PBool False) PNone (PStr ''public'') PNone
                   PNone (PObject ''download_dir/mms'') (PObject ''requests.Session'')))
              = Inr self''
           \<and> self'' ''data_type'' = Some (PStr ''ancillary''))"
proof -
  have h1: "PStr ''public'' \<in> set [PStr ''private'', PStr ''team'', PStr ''sitl'', PStr ''public'']"
    by simp
  have h2: "PStr ''science'' \<in> set [PStr ''ancillary'', PStr ''hk'', PStr ''science'']"
    by simp
  note t = anc_product_sets_data_type[where self = Map.empty and val = PNone
      and site = "PStr ''public''" and data_type = "PStr ''science''"
      and sc = PNone and instr = PNone and mode = PNone and level = PNone
      and anc_product = PNone and data_root = PNone and dropbox_root = PNone
      and end_date = PNone and files = PNone and mirror_root = PNone
      and offline = "PBool False" and optdesc = PNone and start_date = PNone
      and version = PNone and default_root = "PObject ''download_dir/mms''"
      and session = "PObject ''requests.Session''"]
  from t have a: "setattr Map.empty ''anc_product'' PNone
     = Inr (Map.empty(''data_type'' \<mapsto> PStr ''ancillary'', ''anc_product'' \<mapsto> PNone))"
    by (rule conjunct1)
  from t h1 h2 have b: "\<exists>self1 self2 self3 self' self''.
             setattr Map.empty ''site'' (PStr ''public'') = Inr self1
           \<and> setattr self1 ''anc_product'' PNone = Inr self2
           \<and> self2 ''data_type'' = Some (PStr ''ancillary'')
           \<and> setattr self2 ''data_type'' (PStr ''science'') = Inr self3
           \<and> init PNone PNone PNone PNone PNone (PStr ''science'') PNone PNone PNone
                PNone PNone (PBool False) PNone (PStr ''public'') PNone PNone
                (PObject ''download_dir/mms'') (PObject ''requests.Session'')
              = Inr self'
           \<and> self' ''data_type'' = Some (PStr ''science'')
           \<and> self' ''anc_product'' = Some PNone
           \<and> assign_all self2
                (drop 3 (init_assignments PNone PNone PNone PNone PNone (PStr ''science'')
                   PNone PNone PNone PNone PNone (PBool False) PNone (PStr ''public'') PNone
                   PNone (PObject ''download_dir/mms'') (PObject ''requests.Session'')))
              = Inr self''
           \<and> self'' ''data_type'' = Some (PStr ''ancillary'')"
    by blast
  from a h1 h2 b show ?thesis by (intro conjI)
qed

section \<open>Contiguous intervals\<close>

lemma make_datetime_whole_second: "make_datetime y m d H M S = Inr t \<Longrightarrow> one_second dvd t"
  by (auto simp: make_datetime_def split: if_splits)

lemma strptime_whole_second: "strptime s fmt = Inr t \<Longrightarrow> one_second dvd t"
  by (auto simp: strptime_def split: option.splits dest: make_datetime_whole_second)

lemma interval_start_whole_second: "interval_start part = Inr t \<Longrightarrow> one_second dvd t"
  by (auto simp: interval_start_def and_then_def split: sum.splits if_splits
      dest: strptime_whole_second)

lemma whole_seconds_apart:
  assumes "one_second dvd s" "one_second dvd t" "s < t"
  shows "s \<le> t - one_second"
proof -
  from assms(1,2) obtain a b where "s = one_second * a" "t = one_second * b"
    by (auto simp: dvd_def)
  with assms(3) show ?thesis by (simp add: one_second_def)
qed

lemma time_range_ordered: "a \<le> b \<Longrightarrow> time_range a b = \<lparr>range_start = a, range_end = b\<rparr>"
  by (simp add: time_range_def)

lemma intervals_loop_chain:
  assumes "map_err interval_start parts = Inr starts"
    and "sorted_wrt (<) starts"
    and "parts \<noteq> [] \<longrightarrow> last starts \<le> end_date"
  shows "\<exists>trange. intervals_loop parts end_date = Inr trange
          \<and> map range_start trange = starts
          \<and> (\<forall>i. Suc i < length trange \<longrightarrow>
                range_end (trange ! i) = range_start (trange ! Suc i) - one_second)
          \<and> (parts \<noteq> [] \<longrightarrow> range_end (last trange) = end_date)"
  using assms
proof (induction parts end_date arbitrary: starts rule: intervals_loop.induct)
  case (1 end_date)
  then show ?case by simp
next
  case (2 part end_date)
  then obtain s where s: "interval_start part = Inr s" and starts: "starts = [s]"
    by (auto simp: and_then_def split: sum.splits)
  with "2.prems"(3) have "s \<le> end_date" by simp
  then show ?case using s starts by (simp add: and_then_def time_range_ordered)
next
  case (3 part next_part parts end_date)
  from "3.prems"(1) obtain s rest where
    s: "interval_start part = Inr s"
    and rest: "map_err interval_start (next_part # parts) = Inr rest"
    and starts: "starts = s # rest"
    by (auto simp: and_then_def split: sum.splits)
  from rest obtain s' rest' where
    s': "interval_start next_part = Inr s'" and rest': "rest = s' # rest'"
    by (auto simp: and_then_def split: sum.splits)
  have srt: "sorted_wrt (<) rest" using "3.prems"(2) starts by simp
  have lst: "next_part # parts \<noteq> [] \<longrightarrow> last rest \<le> end_date"
    using "3.prems"(3) starts rest' by simp
  from "3.IH"[OF rest srt lst] obtain trange where
    tr: "intervals_loop (next_part # parts) end_date = Inr trange"
    and st: "map range_start trange = rest"
    and ch: "\<forall>i. Suc i < length trange \<longrightarrow>
                range_end (trange ! i) = range_start (trange ! Suc i) - one_second"
    and la: "range_end (last trange) = end_date"
    by auto
  from st rest' have ne: "trange \<noteq> []" by auto
  from st rest' ne have hd: "range_start (hd trange) = s'" by (cases trange) auto
  have "s < s'" using "3.prems"(2) starts rest' by simp
  then have "s \<le> s' - one_second"
    using interval_start_whole_second[OF s] interval_start_whole_second[OF s']
    by (intro whole_seconds_apart)
  then have tr0: "time_range s (range_start (hd trange) - one_second)
                  = \<lparr>range_start = s, range_end = range_start (hd trange) - one_second\<rparr>"
    unfolding hd by (rule time_range_ordered)
  let ?r = "\<lparr>range_start = s, range_end = range_start (hd trange) - one_second\<rparr>"
  have res: "intervals_loop (part # next_part # parts) end_date = Inr (?r # trange)"
    using tr s tr0 by (simp add: and_then_def)
  have "\<forall>i. Suc i < length (?r # trange) \<longrightarrow>
          range_end ((?r # trange) ! i) = range_start ((?r # trange) ! Suc i) - one_second"
  proof (intro allI impI)
    fix i assume "Suc i < length (?r # trange)"
    then show "range_end ((?r # trange) ! i) = range_start ((?r # trange) ! Suc i) - one_second"
      using ch ne by (cases i) (simp_all add: hd_conv_nth)
  qed
  with res st starts la ne show ?case by simp
qed

text \<open>
  C2, amended. For a list of file names that is not empty, whose embedded start times parse
  and are strictly ascending, and for an end of the query that is not before the last start
  time, \<^verbatim>\<open>intervals\<close> returns one interval per file, starting at the start time of the
  file. Every interval but the last ends one second before the start of the next one, every
  interval ends before each later one starts, and the last interval ends at the end of the
  query.
\<close>

theorem intervals_contiguous:
  assumes "fnames \<noteq> []"
    and "map_err interval_start (parse_file_names fnames) = Inr starts"
    and "sorted_wrt (<) starts"
    and "last starts \<le> end_date"
  shows "\<exists>trange. intervals fnames end_date = Inr trange
          \<and> map range_start trange = starts
          \<and> (\<forall>i. Suc i < length trange \<longrightarrow>
                range_end (trange ! i) = range_start (trange ! Suc i) - one_second)
          \<and> (\<forall>i j. i < j \<and> j < length trange \<longrightarrow>
                range_end (trange ! i) < range_start (trange ! j))
          \<and> range_end (last trange) = end_date"
proof -
  from assms(1) have ne: "parse_file_names fnames \<noteq> []"
    by (simp add: parse_file_names_def)
  have lst: "parse_file_names fnames \<noteq> [] \<longrightarrow> last starts \<le> end_date"
    using assms(4) by simp
  from intervals_loop_chain[OF assms(2) assms(3) lst] ne obtain trange where
    tr: "intervals_loop (parse_file_names fnames) end_date = Inr trange"
    and st: "map range_start trange = starts"
    and ch: "\<forall>i. Suc i < length trange \<longrightarrow>
                range_end (trange ! i) = range_start (trange ! Suc i) - one_second"
    and la: "range_end (last trange) = end_date"
    by auto
  have srt: "sorted starts"
    using assms(3) by (rule sorted_wrt_mono_rel[rotated]) simp
  have "range_end (trange ! i) < range_start (trange ! j)"
    if "i < j \<and> j < length trange" for i j
  proof -
    from that have i: "Suc i < length trange" and le: "Suc i \<le> j" and j: "j < length trange"
      by auto
    from st have len: "length starts = length trange" by auto
    have "starts ! Suc i \<le> starts ! j"
      using srt le j len by (simp add: sorted_nth_mono)
    moreover have "starts ! Suc i = range_start (trange ! Suc i)"
      using st i by (metis nth_map)
    moreover have "starts ! j = range_start (trange ! j)"
      using st j by (metis nth_map)
    moreover have "range_end (trange ! i) = range_start (trange ! Suc i) - one_second"
      using ch i by simp
    ultimately show ?thesis by (simp add: one_second_def)
  qed
  with tr st ch la show ?thesis by (auto simp: intervals_def)
qed

text \<open>
  C2, as stated, fails. Two files that both start on 2019-01-01 are in ascending order; with
  the end of the query on 2019-01-03, the first interval runs from 2018-12-31T23:59:59 to
  2019-01-01, so it does not end one second before the start of the second. And for one file
  of 2019-01-02 with the end of the query on 2019-01-01, the interval runs from 2019-01-01 to
  2019-01-02 and does not end at the end of the query.
\<close>

theorem intervals_contiguous_counterexample:
  "range_end (projr (intervals [file_20190101, file_v9]
                       (projr (make_datetime 2019 1 3 0 0 0))) ! 0)
     \<noteq> range_start (projr (intervals [file_20190101, file_v9]
                             (projr (make_datetime 2019 1 3 0 0 0))) ! 1) - one_second
   \<and> intervals [file_20190101, file_v9] (projr (make_datetime 2019 1 3 0 0 0))
       = Inr [\<lparr>range_start = projr (make_datetime 2018 12 31 23 59 59),
                range_end = projr (make_datetime 2019 1 1 0 0 0)\<rparr>,
              \<lparr>range_start = projr (make_datetime 2019 1 1 0 0 0),
                range_end = projr (make_datetime 2019 1 3 0 0 0)\<rparr>]
   \<and> range_end (last (projr (intervals [file_20190102]
                              (projr (make_datetime 2019 1 1 0 0 0)))))
     \<noteq> projr (make_datetime 2019 1 1 0 0 0)
   \<and> intervals [file_20190102] (projr (make_datetime 2019 1 1 0 0 0))
       = Inr [\<lparr>range_start = projr (make_datetime 2019 1 1 0 0 0),
                range_end = projr (make_datetime 2019 1 2 0 0 0)\<rparr>]"
  by code_simp


lemma spec_scenario_starts:
  "map_err interval_start (parse_file_names
      [''mms1_fpi_fast_l2_20190101_v1.0.0.cdf'', ''mms1_fpi_fast_l2_20190102_v1.0.0.cdf''])
   = Inr [63681897600000000, 63681984000000000]"
  by code_simp

theorem intervals_contiguous_witness:
  "[''mms1_fpi_fast_l2_20190101_v1.0.0.cdf'', ''mms1_fpi_fast_l2_20190102_v1.0.0.cdf''] \<noteq> []
   \<and> map_err interval_start (parse_file_names
         [''mms1_fpi_fast_l2_20190101_v1.0.0.cdf'', ''mms1_fpi_fast_l2_20190102_v1.0.0.cdf''])
       = Inr [63681897600000000, 63681984000000000]
   \<and> sorted_wrt (<) [63681897600000000, 63681984000000000 :: int]
   \<and> last [63681897600000000, 63681984000000000 :: int] \<le> 63682070400000000
   \<and> (\<exists>trange. intervals
          [''mms1_fpi_fast_l2_20190101_v1.0.0.cdf'', ''mms1_fpi_fast_l2_20190102_v1.0.0.cdf'']
          63682070400000000 = Inr trange
        \<and> map range_start trange = [63681897600000000, 63681984000000000]
        \<and> range_end (trange ! 0) = range_start (trange ! 1) - one_second
        \<and> range_end (trange ! 0) < range_start (trange ! 1)
        \<and> range_end (last trange) = 63682070400000000)"
proof -
  let ?fnames = "[''mms1_fpi_fast_l2_20190101_v1.0.0.cdf'',
                  ''mms1_fpi_fast_l2_20190102_v1.0.0.cdf'']"
  have ne: "?fnames \<noteq> []" by (rule list.distinct(2))
  have so: "sorted_wrt (<) [63681897600000000, 63681984000000000 :: int]" by simp
  have le: "last [63681897600000000, 63681984000000000 :: int] \<le> 63682070400000000" by simp
  from intervals_contiguous[OF ne spec_scenario_starts so le]
  obtain trange where
    tr: "intervals ?fnames 63682070400000000 = Inr trange"
    and st: "map range_start trange = [63681897600000000, 63681984000000000]"
    and ch: "\<forall>i. Suc i < length trange \<longrightarrow>
                range_end (trange ! i) = range_start (trange ! Suc i) - one_second"
    and no: "\<forall>i j. i < j \<and> j < length trange \<longrightarrow>
                range_end (trange ! i) < range_start (trange ! j)"
    and la: "range_end (last trange) = 63682070400000000"
    by (elim exE conjE)
  have "length (map range_start trange) = Suc (Suc 0)"
    by (simp only: st list.size length_Cons)
  then have len: "length trange = Suc (Suc 0)" by (simp only: length_map)
  have c0: "range_end (trange ! 0) = range_start (trange ! 1) - one_second"
    using ch[rule_format, of 0] len by simp
  have n0: "range_end (trange ! 0) < range_start (trange ! 1)"
    using no[rule_format, of 0 1] len by simp
  have ex: "\<exists>trange. intervals ?fnames 63682070400000000 = Inr trange
        \<and> map range_start trange = [63681897600000000, 63681984000000000]
        \<and> range_end (trange ! 0) = range_start (trange ! 1) - one_second
        \<and> range_end (trange ! 0) < range_start (trange ! 1)
        \<and> range_end (last trange) = 63682070400000000"
    by (rule exI[of _ trange]) (intro conjI tr st c0 n0 la)
  from ne spec_scenario_starts so le ex show ?thesis by (intro conjI)
qed


section \<open>The file before the start of the query\<close>

lemma map_err_length: "map_err f xs = Inr ys \<Longrightarrow> length ys = length xs"
  by (induction xs arbitrary: ys) (auto simp: and_then_def split: sum.splits)

lemma insort_key_map:
  "insort_key f (g x) (map g ys) = map g (insort_key (\<lambda>i. f (g i)) x ys)"
  by (induction ys) simp_all

lemma sort_key_map: "sort_key f (map g xs) = map g (sort_key (\<lambda>i. f (g i)) xs)"
  by (induction xs) (simp_all add: insort_key_map)

lemma zip_as_map_nth:
  "length ts = length xs \<Longrightarrow> zip ts xs = map (\<lambda>i. (ts ! i, xs ! i)) [0..<length ts]"
proof (rule nth_equalityI)
  assume "length ts = length xs"
  then show "length (zip ts xs) = length (map (\<lambda>i. (ts ! i, xs ! i)) [0..<length ts])"
    by simp
next
  fix i assume "length ts = length xs" "i < length (zip ts xs)"
  then show "zip ts xs ! i = map (\<lambda>i. (ts ! i, xs ! i)) [0..<length ts] ! i"
    by simp
qed

lemma sorted_pairs:
  assumes "length ts = length xs"
  shows "map (\<lambda>i. (ts ! i, xs ! i)) (sort_key (\<lambda>k. ts ! k) [0..<length ts])
         = sort_key fst (zip ts xs)"
  using assms by (simp add: zip_as_map_nth sort_key_map)

lemma select_sorted:
  assumes "length ts = length xs"
  shows "select ts (sort_key (\<lambda>k. ts ! k) [0..<length ts]) = map fst (sort_key fst (zip ts xs))"
    and "select xs (sort_key (\<lambda>k. ts ! k) [0..<length ts]) = map snd (sort_key fst (zip ts xs))"
  using sorted_pairs[OF assms, symmetric] by (simp_all add: select_def comp_def)

lemma select_where:
  assumes "length ts = length xs"
  shows "select ts (indices_where p ts) = map fst (filter (\<lambda>q. p (fst q)) (zip ts xs))"
    and "select xs (indices_where p ts) = map snd (filter (\<lambda>q. p (fst q)) (zip ts xs))"
  using assms
  by (simp_all add: zip_as_map_nth filter_map comp_def select_def indices_where_def)

lemma select_from: "k \<le> length xs \<Longrightarrow> select xs [k..<length xs] = drop k xs"
  by (simp add: select_def list_eq_iff_nth_eq)

lemma indices_from_first:
  assumes "sorted fs" "k < length fs" "start_date \<le> fs ! k" "\<forall>j<k. fs ! j < start_date"
  shows "indices_where (\<lambda>t. start_date \<le> t) fs = [k..<length fs]"
proof -
  have sp: "[0..<length fs] = [0..<k] @ [k..<length fs]"
    using assms(2) by (metis le_add_diff_inverse less_imp_le_nat upt_add_eq_append zero_le)
  have a: "filter (\<lambda>i. start_date \<le> fs ! i) [0..<k] = []"
    using assms(4) by (auto simp: filter_empty_conv)
  have "\<forall>i \<in> set [k..<length fs]. start_date \<le> fs ! i"
  proof
    fix i assume "i \<in> set [k..<length fs]"
    then have "k \<le> i" "i < length fs" by auto
    then have "fs ! k \<le> fs ! i" using assms(1) by (simp add: sorted_nth_mono)
    with assms(3) show "start_date \<le> fs ! i" by simp
  qed
  then have b: "filter (\<lambda>i. start_date \<le> fs ! i) [k..<length fs] = [k..<length fs]"
    by (simp only: filter_True)
  show ?thesis
    unfolding indices_where_def by (subst sp) (simp only: filter_append a b append_Nil)
qed

lemma start_indices_first:
  assumes "sorted fs" "k < length fs" "start_date \<le> fs ! k" "\<forall>j<k. fs ! j < start_date"
  shows "start_indices fs start_date
         = Inr (if k \<noteq> 0 \<and> fs ! k \<noteq> start_date then [k - 1..<length fs] else [k..<length fs])"
proof -
  have idx: "indices_where (\<lambda>t. start_date \<le> t) fs = [k..<length fs]"
    by (rule indices_from_first[OF assms])
  have ne: "[k..<length fs] \<noteq> []" using assms(2) by (cases fs) simp_all
  have la: "index fs (- 1) = Inr (fs ! (length fs - 1))"
  proof -
    have "0 < length fs" using assms(2) by linarith
    moreover have "nat (int (length fs) - 1) = length fs - Suc 0" by arith
    ultimately show ?thesis by (simp add: index_def)
  qed
  have fi: "index [k..<length fs] 0 = Inr k"
    using assms(2) by (simp add: index_def)
  have tk: "index fs (int k) = Inr (fs ! k)"
    using assms(2) by (simp add: index_def)
  have ins: "k \<noteq> 0 \<Longrightarrow> list_insert 0 (k - 1) [k..<length fs] = [k - 1..<length fs]"
    using assms(2) by (simp add: list_insert_def clamp_index_def upt_conv_Cons)
  have step: "start_indices fs start_date
      = (if k \<noteq> 0 \<and> fs ! k \<noteq> start_date
         then Inr (list_insert 0 (k - 1) [k..<length fs]) else Inr [k..<length fs])"
    unfolding start_indices_def Let_def idx
    using ne by (simp add: la and_then_def fi tk)
  show ?thesis
  proof (cases "k \<noteq> 0 \<and> fs ! k \<noteq> start_date")
    case True
    with step ins show ?thesis by simp
  next
    case False
    with step show ?thesis by auto
  qed
qed


text \<open>
  C3. Take the files that start on or before the end of the query, in ascending
  order of start time, and let at least one of them start at or after the start of the query;
  \<open>k\<close> is the place of the first such file. Then \<^verbatim>\<open>filter_time\<close> returns the files
  from that one on, with the single file before it in front, unless a file starts exactly at
  the start of the query or there is no file before it; then nothing is put in front.
\<close>

theorem filter_time_single_predecessor:
  assumes "map_err file_start (parse_file_names fnames) = Inr fstart"
    and "kept = filter (\<lambda>p. fst p \<le> end_date) (sort_key fst (zip fstart fnames))"
    and "k < length kept"
    and "start_date \<le> fst (kept ! k)"
    and "\<forall>j<k. fst (kept ! j) < start_date"
  shows "filter_time fnames start_date end_date
         = Inr (map snd (if k \<noteq> 0 \<and> start_date \<notin> set fstart
                         then drop (k - 1) kept else drop k kept))"
proof -
  let ?sorted = "sort_key fst (zip fstart fnames)"
  let ?fs = "map fst kept"
  let ?fl = "map snd kept"
  have len: "length fstart = length fnames"
    using map_err_length[OF assms(1)] by (simp add: parse_file_names_def)
  have len2: "length (map fst ?sorted) = length (map snd ?sorted)" by simp
  have zs: "zip (map fst ?sorted) (map snd ?sorted) = ?sorted"
    by (simp add: zip_map_fst_snd)
  have fs: "select (map fst ?sorted) (indices_where (\<lambda>t. t \<le> end_date) (map fst ?sorted)) = ?fs"
    using select_where(1)[OF len2, of "\<lambda>t. t \<le> end_date"] by (simp only: zs assms(2))
  have fl: "select (map snd ?sorted) (indices_where (\<lambda>t. t \<le> end_date) (map fst ?sorted)) = ?fl"
    using select_where(2)[OF len2, of "\<lambda>t. t \<le> end_date"] by (simp only: zs assms(2))
  have iw: "length (indices_where (\<lambda>t. t \<le> end_date) (map fst ?sorted)) = length kept"
    using arg_cong[OF fs, of length] by (simp add: select_def)
  have srt: "sorted ?fs"
    unfolding assms(2) by (rule sorted_filter) (rule sorted_sort_key)
  have klen: "k < length ?fs" using assms(3) by simp
  have kge: "start_date \<le> ?fs ! k" using assms(3,4) by simp
  have klt: "\<forall>j<k. ?fs ! j < start_date" using assms(3,5) by simp
  have si: "start_indices ?fs start_date
         = Inr (if k \<noteq> 0 \<and> ?fs ! k \<noteq> start_date then [k - 1..<length ?fs]
                else [k..<length ?fs])"
    by (rule start_indices_first[OF srt klen kge klt])
  have exact: "?fs ! k = start_date \<longleftrightarrow> start_date \<in> set fstart"
  proof
    assume "?fs ! k = start_date"
    then have "start_date \<in> set ?fs" using klen by (metis nth_mem)
    then have "start_date \<in> fst ` set (zip fstart fnames)"
      unfolding assms(2) by auto
    then show "start_date \<in> set fstart" by (auto dest: set_zip_leftD)
  next
    assume "start_date \<in> set fstart"
    then have "start_date \<in> fst ` set (zip fstart fnames)"
      using len by (metis map_fst_zip set_map)
    then obtain q where q: "q \<in> set ?sorted" "fst q = start_date" by auto
    have "?fs ! k \<le> end_date"
    proof -
      have "kept ! k \<in> set kept" using assms(3) by simp
      then have "kept ! k \<in> set (filter (\<lambda>p. fst p \<le> end_date) ?sorted)"
        by (simp only: assms(2))
      then have "fst (kept ! k) \<le> end_date" by simp
      then show ?thesis using assms(3) by simp
    qed
    with kge have "start_date \<le> end_date" by simp
    with q have "q \<in> set kept" unfolding assms(2) by simp
    then obtain j where j: "j < length kept" "kept ! j = q" by (auto simp: in_set_conv_nth)
    with q klt have "\<not> j < k" by auto
    then have "k \<le> j" by simp
    then have "?fs ! k \<le> ?fs ! j" using srt j(1) by (simp add: sorted_nth_mono del: nth_map)
    with j q have "?fs ! k \<le> start_date" by simp
    with kge show "?fs ! k = start_date" by simp
  qed
  have nonempty: "0 < length kept" using assms(3) by linarith
  have sel: "select ?fl [k..<length ?fs] = drop k ?fl"
    using select_from[of k ?fl] assms(3) by simp
  have sel1: "k \<noteq> 0 \<Longrightarrow> select ?fl [k - 1..<length ?fs] = drop (k - 1) ?fl"
    using select_from[of "k - 1" ?fl] assms(3) by simp
  have ne1: "[k..<length ?fs] \<noteq> []" using assms(3) by (cases kept) simp_all
  have ne2: "[k - 1..<length ?fs] \<noteq> []" using assms(3) by (cases kept) simp_all
  have body: "filter_time fnames start_date end_date
      = and_then (start_indices ?fs start_date) (\<lambda>idx.
          Inr (if length idx > 0 then select ?fl idx else []))"
    unfolding filter_time_def Let_def assms(1) and_then_def sum.case
      select_sorted[OF len] fs fl iw nonempty[THEN eqTrueI] if_True
    by (rule refl)
  show ?thesis
  proof (cases "k \<noteq> 0 \<and> start_date \<notin> set fstart")
    case True
    then have c: "k \<noteq> 0 \<and> ?fs ! k \<noteq> start_date" using exact by blast
    have "start_indices ?fs start_date = Inr [k - 1..<length ?fs]"
      using si by (simp only: if_P[OF c])
    with body sel1 ne2 True
    have "filter_time fnames start_date end_date = Inr (map snd (drop (k - 1) kept))"
      by (simp add: and_then_def drop_map)
    then show ?thesis by (simp only: if_P[OF True])
  next
    case False
    then have c: "\<not> (k \<noteq> 0 \<and> ?fs ! k \<noteq> start_date)" using exact by blast
    have "start_indices ?fs start_date = Inr [k..<length ?fs]"
      using si by (simp only: if_not_P[OF c])
    with body sel ne1 have "filter_time fnames start_date end_date = Inr (map snd (drop k kept))"
      by (simp add: and_then_def drop_map)
    then show ?thesis by (simp only: if_not_P[OF False])
  qed
qed


text \<open>
  The first file at or after the start of the query exists as soon as one file does.
\<close>

lemma first_in_range_exists:
  assumes "\<exists>p \<in> set kept. (start_date :: datetime) \<le> fst p"
  shows "\<exists>k. k < length kept \<and> start_date \<le> fst (kept ! k)
             \<and> (\<forall>j<k. fst (kept ! j) < start_date)"
proof -
  let ?P = "\<lambda>k. k < length kept \<and> start_date \<le> fst (kept ! k)"
  from assms obtain p where "p \<in> set kept" "start_date \<le> fst p" by blast
  then have ex: "\<exists>k. ?P k" by (metis in_set_conv_nth)
  define k where "k = (LEAST k. ?P k)"
  have pk: "?P k" unfolding k_def using ex by (rule LeastI_ex)
  have "fst (kept ! j) < start_date" if "j < k" for j
  proof -
    from that have "\<not> ?P j" unfolding k_def by (rule not_less_Least)
    moreover from that pk have "j < length kept" by simp
    ultimately show ?thesis by (simp add: not_le)
  qed
  with pk show ?thesis by blast
qed

lemma unsorted_starts:
  "map_err file_start (parse_file_names [file_20190105, file_20181231, file_20190102])
   = Inr [63682243200000000, 63681811200000000, 63681984000000000]"
  by code_simp

lemma unsorted_kept:
  "[(63681811200000000, file_20181231), (63681984000000000, file_20190102)]
   = filter (\<lambda>p. fst p \<le> (63682070400000000 :: int))
       (sort_key fst (zip [63682243200000000, 63681811200000000, 63681984000000000]
          [file_20190105, file_20181231, file_20190102]))"
  by simp

theorem filter_time_single_predecessor_witness:
  "map_err file_start (parse_file_names [file_20190105, file_20181231, file_20190102])
     = Inr [63682243200000000, 63681811200000000, 63681984000000000]
   \<and> (1 :: nat) < length [(63681811200000000 :: int, file_20181231),
                            (63681984000000000, file_20190102)]
   \<and> (63681940800000000 :: int)
        \<le> fst ([(63681811200000000, file_20181231), (63681984000000000, file_20190102)] ! 1)
   \<and> fst ([(63681811200000000 :: int, file_20181231), (63681984000000000, file_20190102)] ! 0)
        < 63681940800000000
   \<and> filter_time [file_20190105, file_20181231, file_20190102]
        63681940800000000 63682070400000000
      = Inr [file_20181231, file_20190102]"
proof -
  let ?kept = "[(63681811200000000 :: int, file_20181231), (63681984000000000, file_20190102)]"
  have h3: "(1 :: nat) < length ?kept" by simp
  have h4: "(63681940800000000 :: int) \<le> fst (?kept ! 1)" by simp
  have h5': "fst (?kept ! 0) < (63681940800000000 :: int)" by simp
  then have h5: "\<forall>j<1. fst (?kept ! j) < (63681940800000000 :: int)" by simp
  have notin: "(63681940800000000 :: int)
        \<notin> set [63682243200000000, 63681811200000000, 63681984000000000]" by simp
  from filter_time_single_predecessor[OF unsorted_starts unsorted_kept h3 h4 h5]
  have "filter_time [file_20190105, file_20181231, file_20190102]
          63681940800000000 63682070400000000
        = Inr [file_20181231, file_20190102]"
    using notin by simp
  with unsorted_starts h3 h4 h5' show ?thesis by (intro conjI)
qed

end
